theory Spec2Isabelle
  imports Complex_Main "HOL-Library.Multiset"
begin

section \<open>Numbers and cells of a data frame\<close>

text \<open>
  The dashboard of \<^verbatim>\<open>model.py\<close> reads a CSV file into a pandas data frame and
  computes on its columns. A numeric cell is a float64 (an int64 column becomes float64
  at the first true division). The model keeps the three special values of a float64
  and idealises every other value as an exact real: rounding, overflow and the sign of
  zero are not modelled. A missing cell is \<open>NaN\<close>, as in pandas.

  What is proved below does not lean on the exact arithmetic: the theorems relate the
  cells that a frame holds to one another (a stored score to its level, a column to the
  frame sorted by it), and the example frames are chosen so that float64 computes the
  same cells: their scores are 0, 1 by clipping, or missing, and the one mean that is
  taken, of 0.8 and 0.2, is 0.5 in float64 too. An equation between a float64 result and a
  real number, such as a score of 0.45, is outside this model.
\<close>

datatype f64 = Fin real | PInf | NInf | NaN

fun isnan :: "f64 \<Rightarrow> bool" where
  "isnan NaN = True"
| "isnan _ = False"

text \<open>Comparison of floats: every comparison with \<open>NaN\<close> is false.\<close>

fun num_less :: "f64 \<Rightarrow> f64 \<Rightarrow> bool" where
  "num_less NaN _ = False"
| "num_less _ NaN = False"
| "num_less (Fin a) (Fin b) = (a < b)"
| "num_less (Fin a) PInf = True"
| "num_less (Fin a) NInf = False"
| "num_less PInf _ = False"
| "num_less NInf NInf = False"
| "num_less NInf _ = True"

fun num_le :: "f64 \<Rightarrow> f64 \<Rightarrow> bool" where
  "num_le NaN _ = False"
| "num_le _ NaN = False"
| "num_le (Fin a) (Fin b) = (a \<le> b)"
| "num_le (Fin a) PInf = True"
| "num_le (Fin a) NInf = False"
| "num_le PInf PInf = True"
| "num_le PInf _ = False"
| "num_le NInf _ = True"

text \<open>True division \<^verbatim>\<open>a / b\<close> of floats; a zero divisor gives an infinity or \<open>NaN\<close>.\<close>

fun fdiv :: "f64 \<Rightarrow> f64 \<Rightarrow> f64" where
  "fdiv NaN _ = NaN"
| "fdiv _ NaN = NaN"
| "fdiv (Fin a) (Fin b) =
     (if b \<noteq> 0 then Fin (a / b)
      else if 0 < a then PInf else if a < 0 then NInf else NaN)"
| "fdiv (Fin a) _ = Fin 0"
| "fdiv PInf (Fin b) = (if 0 \<le> b then PInf else NInf)"
| "fdiv NInf (Fin b) = (if 0 \<le> b then NInf else PInf)"
| "fdiv _ _ = NaN"

fun fmul :: "f64 \<Rightarrow> f64 \<Rightarrow> f64" where
  "fmul NaN _ = NaN"
| "fmul _ NaN = NaN"
| "fmul (Fin a) (Fin b) = Fin (a * b)"
| "fmul (Fin a) PInf = (if 0 < a then PInf else if a < 0 then NInf else NaN)"
| "fmul (Fin a) NInf = (if 0 < a then NInf else if a < 0 then PInf else NaN)"
| "fmul PInf (Fin b) = (if 0 < b then PInf else if b < 0 then NInf else NaN)"
| "fmul NInf (Fin b) = (if 0 < b then NInf else if b < 0 then PInf else NaN)"
| "fmul PInf PInf = PInf"
| "fmul PInf NInf = NInf"
| "fmul NInf PInf = NInf"
| "fmul NInf NInf = PInf"

fun fadd :: "f64 \<Rightarrow> f64 \<Rightarrow> f64" where
  "fadd NaN _ = NaN"
| "fadd _ NaN = NaN"
| "fadd (Fin a) (Fin b) = Fin (a + b)"
| "fadd (Fin a) b = b"
| "fadd PInf NInf = NaN"
| "fadd NInf PInf = NaN"
| "fadd a _ = a"

text \<open>\<^verbatim>\<open>np.maximum\<close> and \<^verbatim>\<open>np.minimum\<close> hand a \<open>NaN\<close> operand on.\<close>

definition np_maximum :: "f64 \<Rightarrow> f64 \<Rightarrow> f64" where
  "np_maximum a b = (if isnan a then a else if isnan b then b else if num_less a b then b else a)"

definition np_minimum :: "f64 \<Rightarrow> f64 \<Rightarrow> f64" where
  "np_minimum a b = (if isnan a then a else if isnan b then b else if num_less b a then b else a)"

text \<open>\<^verbatim>\<open>np.clip(x, lo, hi)\<close> on one element: the minimum with \<open>hi\<close> of the maximum with \<open>lo\<close>.\<close>

definition clip :: "f64 \<Rightarrow> f64 \<Rightarrow> f64 \<Rightarrow> f64" where
  "clip x lo hi = np_minimum (np_maximum x lo) hi"

text \<open>
  A cell of a frame read from CSV is a number (a missing cell is \<open>Num NaN\<close>) or a
  string of an object column.
\<close>

datatype cell = Num f64 | Str string

datatype error = TypeError | KeyError | ValueError

text \<open>
  A data frame, by columns as pandas stores it: the row labels and an association list
  from column names to columns, in column order.
\<close>

record frame =
  index :: "nat list"
  cols :: "(string \<times> cell list) list"

definition columns :: "frame \<Rightarrow> string list" where
  "columns df = map fst (cols df)"

definition nrows :: "frame \<Rightarrow> nat" where
  "nrows df = length (index df)"

text \<open>A frame is well formed when its column names are distinct and every column has one
  cell per row label; \<^verbatim>\<open>pd.read_csv\<close> returns such a frame.\<close>

definition wf_frame :: "frame \<Rightarrow> bool" where
  "wf_frame df \<longleftrightarrow>
     distinct (columns df) \<and> list_all (\<lambda>(c, vs). length vs = nrows df) (cols df)"

text \<open>\<^verbatim>\<open>df[c]\<close>: the column named \<open>c\<close>; a name that is no column raises \<^verbatim>\<open>KeyError\<close>.\<close>

definition get_col :: "frame \<Rightarrow> string \<Rightarrow> error + cell list" where
  "get_col df c = (case map_of (cols df) c of None \<Rightarrow> Inl KeyError | Some vs \<Rightarrow> Inr vs)"

text \<open>\<^verbatim>\<open>df[c] = vs\<close>: replaces the column where it stands, or appends a new last column.\<close>

fun upd_assoc :: "string \<Rightarrow> cell list \<Rightarrow> (string \<times> cell list) list \<Rightarrow> (string \<times> cell list) list" where
  "upd_assoc c vs [] = [(c, vs)]"
| "upd_assoc c vs ((k, ws) # kvs) = (if k = c then (c, vs) # kvs else (k, ws) # upd_assoc c vs kvs)"

definition set_col :: "frame \<Rightarrow> string \<Rightarrow> cell list \<Rightarrow> frame" where
  "set_col df c vs = df\<lparr>cols := upd_assoc c vs (cols df)\<rparr>"

definition bind_err :: "error + 'a \<Rightarrow> ('a \<Rightarrow> error + 'b) \<Rightarrow> error + 'b" where
  "bind_err m f = (case m of Inl e \<Rightarrow> Inl e | Inr x \<Rightarrow> f x)"

section \<open>Arithmetic on columns\<close>

text \<open>
  An arithmetic operator on columns works cell by cell. A string operand makes Python
  raise \<^verbatim>\<open>TypeError\<close>, which ends the whole script.
\<close>

fun cell_binop :: "(f64 \<Rightarrow> f64 \<Rightarrow> f64) \<Rightarrow> cell \<Rightarrow> cell \<Rightarrow> cell option" where
  "cell_binop f (Num a) (Num b) = Some (Num (f a b))"
| "cell_binop f _ _ = None"

definition series_binop :: "(f64 \<Rightarrow> f64 \<Rightarrow> f64) \<Rightarrow> cell list \<Rightarrow> cell list \<Rightarrow> error + cell list" where
  "series_binop f xs ys =
     (case those (map2 (cell_binop f) xs ys) of None \<Rightarrow> Inl TypeError | Some zs \<Rightarrow> Inr zs)"

text \<open>\<^verbatim>\<open>xs * k\<close> with a float scalar \<open>k\<close>.\<close>

definition series_scale :: "cell list \<Rightarrow> real \<Rightarrow> error + cell list" where
  "series_scale xs k =
     (case those (map (\<lambda>x. cell_binop fmul x (Num (Fin k))) xs) of
        None \<Rightarrow> Inl TypeError | Some zs \<Rightarrow> Inr zs)"

fun cell_clip :: "real \<Rightarrow> real \<Rightarrow> cell \<Rightarrow> cell option" where
  "cell_clip lo hi (Num a) = Some (Num (clip a (Fin lo) (Fin hi)))"
| "cell_clip lo hi (Str s) = None"

definition np_clip :: "cell list \<Rightarrow> real \<Rightarrow> real \<Rightarrow> error + cell list" where
  "np_clip xs lo hi =
     (case those (map (cell_clip lo hi) xs) of None \<Rightarrow> Inl TypeError | Some zs \<Rightarrow> Inr zs)"

section \<open>Binning with \<^verbatim>\<open>pd.cut\<close>\<close>

text \<open>
  \<^verbatim>\<open>pd.cut(x, bins, labels)\<close> with a list of bin edges and the default \<^verbatim>\<open>right=True\<close>,
  \<^verbatim>\<open>include_lowest=False\<close>: the position of a value among the edges is
  \<^verbatim>\<open>bins.searchsorted(x, side="left")\<close>, the number of edges strictly below it. Position 0
  (at or below the first edge), position \<open>length bins\<close> (above the last edge) and \<open>NaN\<close>
  give a missing category; position \<open>i\<close> gives label \<open>i - 1\<close>.
\<close>

definition searchsorted_left :: "real list \<Rightarrow> f64 \<Rightarrow> nat" where
  "searchsorted_left bins x = length (takeWhile (\<lambda>b. num_less (Fin b) x) bins)"

fun cut_cell :: "real list \<Rightarrow> string list \<Rightarrow> cell \<Rightarrow> cell option" where
  "cut_cell bins labels (Num x) =
     (let ids = searchsorted_left bins x in
      if isnan x \<or> ids = length bins \<or> ids = 0 then Some (Num NaN)
      else Some (Str (labels ! (ids - 1))))"
| "cut_cell bins labels (Str s) = None"

definition pd_cut :: "cell list \<Rightarrow> real list \<Rightarrow> string list \<Rightarrow> error + cell list" where
  "pd_cut xs bins labels =
     (case those (map (cut_cell bins labels) xs) of None \<Rightarrow> Inl TypeError | Some zs \<Rightarrow> Inr zs)"

section \<open>Feature engineering\<close>

text \<open>Lines 29 to 34 of \<^verbatim>\<open>model.py\<close>: three column assignments, in this order.\<close>

definition score :: "frame \<Rightarrow> error + frame" where
  "score df =
     bind_err (get_col df ''income'') (\<lambda>income.
     bind_err (get_col df ''loan_amount'') (\<lambda>loan_amount.
     bind_err (series_binop fdiv income loan_amount) (\<lambda>ratio.
     let df1 = set_col df ''income_to_loan_ratio'' ratio in
     bind_err (get_col df1 ''income_to_loan_ratio'') (\<lambda>r.
     bind_err (series_scale r 0.3) (\<lambda>a.
     bind_err (get_col df1 ''age'') (\<lambda>age.
     bind_err (series_scale age 0.01) (\<lambda>b.
     bind_err (series_binop fadd a b) (\<lambda>s.
     bind_err (np_clip s 0 1) (\<lambda>risk_score.
     let df2 = set_col df1 ''risk_score'' risk_score in
     bind_err (get_col df2 ''risk_score'') (\<lambda>rs.
     bind_err (pd_cut rs [0, 0.3, 0.7, 1] [''Low'', ''Medium'', ''High'']) (\<lambda>risk_level.
     Inr (set_col df2 ''risk_level'' risk_level))))))))))))"

text \<open>A column that holds numbers only, as a float64 or int64 column of the CSV does.\<close>

fun is_number :: "cell \<Rightarrow> bool" where
  "is_number (Num a) = True"
| "is_number (Str s) = False"

definition numeric_col :: "frame \<Rightarrow> string \<Rightarrow> bool" where
  "numeric_col df c =
     (case map_of (cols df) c of None \<Rightarrow> False | Some vs \<Rightarrow> list_all is_number vs)"

section \<open>Rows, positional selection and the first rows\<close>

text \<open>\<^verbatim>\<open>df.iloc[i]\<close>: the row at position \<open>i\<close>, as the cells under their column names.\<close>

definition row_at :: "frame \<Rightarrow> nat \<Rightarrow> (string \<times> cell) list" where
  "row_at df i = map (\<lambda>(c, vs). (c, vs ! i)) (cols df)"

text \<open>The rows in order, each with its label (\<^verbatim>\<open>df.iterrows()\<close>).\<close>

definition rows :: "frame \<Rightarrow> (nat \<times> (string \<times> cell) list) list" where
  "rows df = map (\<lambda>i. (index df ! i, row_at df i)) [0..<nrows df]"

text \<open>The cell of column \<open>c\<close> at position \<open>i\<close>, when there is one.\<close>

definition cell_at :: "frame \<Rightarrow> string \<Rightarrow> nat \<Rightarrow> cell option" where
  "cell_at df c i =
     (case map_of (cols df) c of
        None \<Rightarrow> None
      | Some vs \<Rightarrow> if i < length vs then Some (vs ! i) else None)"

text \<open>\<^verbatim>\<open>df.take(ps)\<close>: the rows at the positions \<open>ps\<close>, in that order, labels kept.\<close>

definition take_rows :: "frame \<Rightarrow> nat list \<Rightarrow> frame" where
  "take_rows df ps =
     \<lparr>index = map (\<lambda>p. index df ! p) ps,
      cols = map (\<lambda>(c, vs). (c, map (\<lambda>p. vs ! p) ps)) (cols df)\<rparr>"

text \<open>\<^verbatim>\<open>df.head(n)\<close> is \<^verbatim>\<open>df.iloc[:n]\<close>, for a count \<open>n\<close>.\<close>

definition head :: "nat \<Rightarrow> frame \<Rightarrow> frame" where
  "head n df = \<lparr>index = take n (index df), cols = map (\<lambda>(c, vs). (c, take n vs)) (cols df)\<rparr>"

section \<open>Validation\<close>

definition required_cols :: "string list" where
  "required_cols = [''age'', ''income'', ''loan_amount'']"




definition all_required :: "frame \<Rightarrow> bool" where
  "all_required df = list_all (\<lambda>col. col \<in> set (columns df)) required_cols"

section \<open>Filter by risk level\<close>

text \<open>\<^verbatim>\<open>xs == s\<close> for a column and a string: a missing cell is not equal to any string.\<close>

definition series_eq :: "cell list \<Rightarrow> string \<Rightarrow> bool list" where
  "series_eq xs s = map (\<lambda>x. x = Str s) xs"

text \<open>\<^verbatim>\<open>mask.nonzero()[0]\<close>: the positions where the mask is true.\<close>

definition nonzero :: "bool list \<Rightarrow> nat list" where
  "nonzero m = filter (\<lambda>i. m ! i) [0..<length m]"

text \<open>\<^verbatim>\<open>df[mask]\<close> takes the rows at the true positions of the mask.\<close>

definition bool_index :: "frame \<Rightarrow> bool list \<Rightarrow> frame" where
  "bool_index df m = take_rows df (nonzero m)"

text \<open>Lines 61 to 64: a filtered frame is built and shown only when a level other than
  \<^verbatim>\<open>"All"\<close> is selected.\<close>

definition filtered_df :: "frame \<Rightarrow> string \<Rightarrow> error + frame option" where
  "filtered_df df selected_level =
     (if selected_level \<noteq> ''All'' then
        bind_err (get_col df ''risk_level'') (\<lambda>lv.
        Inr (Some (bool_index df (series_eq lv selected_level))))
      else Inr None)"

section \<open>Top high-risk borrowers\<close>

text \<open>\<^verbatim>\<open>pd.isna\<close> on a cell.\<close>

fun isna :: "cell \<Rightarrow> bool" where
  "isna (Num x) = isnan x"
| "isna (Str s) = False"

text \<open>
  \<^verbatim>\<open>df.sort_values(by=c, ascending=False)\<close> takes the rows at the positions that
  pandas' \<^verbatim>\<open>nargsort\<close> computes for the column, with the defaults
  \<^verbatim>\<open>kind="quicksort"\<close> and \<^verbatim>\<open>na_position="last"\<close>: the missing cells are set
  aside, the others are reversed, sorted ascending by numpy's \<^verbatim>\<open>argsort\<close>, reversed
  again, and the positions of the missing cells are appended in their order. numpy's
  \<^verbatim>\<open>argsort\<close> is not part of the repository and its default kind is not a stable sort,
  so it is a parameter of the model: a function from the keys to the positions that sort
  them.
\<close>

definition nargsort_desc :: "(cell list \<Rightarrow> nat list) \<Rightarrow> cell list \<Rightarrow> nat list" where
  "nargsort_desc argsort items =
     (let idx = [0..<length items];
          non_nan_idx = filter (\<lambda>i. \<not> isna (items ! i)) idx;
          nan_idx = filter (\<lambda>i. isna (items ! i)) idx;
          non_nans = map (\<lambda>i. items ! i) non_nan_idx;
          non_nans_r = rev non_nans;
          non_nan_idx_r = rev non_nan_idx;
          indexer = map (\<lambda>j. non_nan_idx_r ! j) (argsort non_nans_r)
      in rev indexer @ nan_idx)"

definition sort_values_desc :: "(cell list \<Rightarrow> nat list) \<Rightarrow> frame \<Rightarrow> string \<Rightarrow> error + frame" where
  "sort_values_desc argsort df by =
     bind_err (get_col df by) (\<lambda>k. Inr (take_rows df (nargsort_desc argsort k)))"

text \<open>Line 68, with the literal 5 as the parameter \<open>n\<close>.\<close>

definition top_risk :: "(cell list \<Rightarrow> nat list) \<Rightarrow> nat \<Rightarrow> frame \<Rightarrow> error + frame" where
  "top_risk argsort n df =
     bind_err (sort_values_desc argsort df ''risk_score'') (\<lambda>s. Inr (head n s))"

section \<open>Loan decision recommendation\<close>

text \<open>\<^verbatim>\<open>df.loc[l]\<close> as line 75 uses it: the row labelled \<open>l\<close>. A label that is not in
  the index raises \<^verbatim>\<open>KeyError\<close>. A label that stands more than once selects a frame
  and not a row, and the truth value that line 76 then takes of a column of comparisons
  raises \<^verbatim>\<open>ValueError\<close>; the index that \<^verbatim>\<open>pd.read_csv\<close> gives has no such label.\<close>

definition loc :: "frame \<Rightarrow> nat \<Rightarrow> error + (string \<times> cell) list" where
  "loc df l =
     (case filter (\<lambda>i. index df ! i = l) [0..<nrows df] of
        [] \<Rightarrow> Inl KeyError
      | [p] \<Rightarrow> Inr (row_at df p)
      | p # q # ps \<Rightarrow> Inl ValueError)"

text \<open>\<^verbatim>\<open>borrower[c]\<close>\<close>

definition field :: "(string \<times> cell) list \<Rightarrow> string \<Rightarrow> error + cell" where
  "field r c = (case map_of r c of None \<Rightarrow> Inl KeyError | Some v \<Rightarrow> Inr v)"

text \<open>Line 76.\<close>

definition recommend :: "(string \<times> cell) list \<Rightarrow> error + string" where
  "recommend borrower =
     bind_err (field borrower ''risk_level'') (\<lambda>lv.
     Inr (if lv = Str ''High'' then ''Review manually'' else ''Likely Approve''))"

text \<open>Lines 73 to 76; the select box over an empty index gives no label at all.\<close>

definition recommendation :: "frame \<Rightarrow> nat option \<Rightarrow> error + string" where
  "recommendation df selected_index =
     (case selected_index of
        None \<Rightarrow> Inl KeyError
      | Some l \<Rightarrow> bind_err (loc df l) recommend)"

section \<open>Regional risk analysis\<close>

text \<open>
  \<^verbatim>\<open>df.groupby("region")\<close> with its defaults \<^verbatim>\<open>dropna=True\<close> and \<^verbatim>\<open>sort=True\<close>:
  one group for each distinct key that is not missing, the groups in the order of their
  keys. Strings are ordered as Python orders them, by code points; numbers come before
  strings.
\<close>

fun str_le :: "string \<Rightarrow> string \<Rightarrow> bool" where
  "str_le [] t = True"
| "str_le (x # xs) [] = False"
| "str_le (x # xs) (y # ys) =
     ((of_char x :: nat) < of_char y \<or> (x = y \<and> str_le xs ys))"

fun key_le :: "cell \<Rightarrow> cell \<Rightarrow> bool" where
  "key_le (Num a) (Num b) = num_le a b"
| "key_le (Num a) (Str t) = True"
| "key_le (Str s) (Num b) = False"
| "key_le (Str s) (Str t) = str_le s t"

fun insort_key :: "cell \<Rightarrow> cell list \<Rightarrow> cell list" where
  "insort_key k [] = [k]"
| "insort_key k (x # xs) = (if key_le k x then k # x # xs else x # insort_key k xs)"

definition sort_keys :: "cell list \<Rightarrow> cell list" where
  "sort_keys ks = foldr insort_key ks []"

definition group_keys :: "cell list \<Rightarrow> cell list" where
  "group_keys ks = sort_keys (remdups (filter (\<lambda>k. \<not> isna k) ks))"

text \<open>The positions of the rows of the group with key \<open>k\<close>.\<close>

definition group_positions :: "cell list \<Rightarrow> cell \<Rightarrow> nat list" where
  "group_positions ks k = filter (\<lambda>i. ks ! i = k) [0..<length ks]"

text \<open>\<^verbatim>\<open>"count"\<close>: the number of cells of the group that are not missing.\<close>

definition agg_count :: "cell list \<Rightarrow> cell" where
  "agg_count xs = Num (Fin (real (length (filter (\<lambda>x. \<not> isna x) xs))))"

text \<open>\<^verbatim>\<open>"mean"\<close>: the sum of the cells that are not missing over their number, \<open>NaN\<close>
  when there is none; a string cell raises \<^verbatim>\<open>TypeError\<close>.\<close>

fun the_num :: "cell \<Rightarrow> f64 option" where
  "the_num (Num a) = Some a"
| "the_num (Str s) = None"

definition fsum :: "f64 list \<Rightarrow> f64" where
  "fsum xs = foldl fadd (Fin 0) xs"

definition agg_mean :: "cell list \<Rightarrow> cell option" where
  "agg_mean xs =
     (case those (map the_num xs) of
        None \<Rightarrow> None
      | Some vs \<Rightarrow>
          let ws = filter (\<lambda>v. \<not> isnan v) vs
          in Some (Num (fdiv (fsum ws) (Fin (real (length ws))))))"

text \<open>\<^verbatim>\<open>lambda x: (x == "High").mean()\<close>: the share of true cells of the comparison.\<close>

definition agg_high :: "cell list \<Rightarrow> cell" where
  "agg_high xs =
     Num (fdiv (Fin (real (length (filter (\<lambda>b. b) (series_eq xs ''High'')))))
               (Fin (real (length xs))))"

text \<open>Lines 82 to 87 and 96 to 98: the summary by region, or nothing but a warning when
  there is no region column.\<close>

definition region_summary :: "frame \<Rightarrow> error + frame option" where
  "region_summary df =
     (if ''region'' \<in> set (columns df) then
        bind_err (get_col df ''region'') (\<lambda>region.
        bind_err (get_col df ''risk_score'') (\<lambda>rs.
        bind_err (get_col df ''risk_level'') (\<lambda>rl.
        let keys = group_keys region;
            groups = map (group_positions region) keys
        in (case those (map (\<lambda>g. agg_mean (map (\<lambda>i. rs ! i) g)) groups) of
              None \<Rightarrow> Inl TypeError
            | Some means \<Rightarrow>
                Inr (Some
                  \<lparr>index = [0..<length keys],
                   cols = [(''region'', keys),
                           (''total_borrowers'', map (\<lambda>g. agg_count (map (\<lambda>i. rs ! i) g)) groups),
                           (''avg_risk_score'', means),
                           (''high_risk_pct'', map (\<lambda>g. agg_high (map (\<lambda>i. rl ! i) g)) groups)]\<rparr>)))))
      else Inr None)"

section \<open>The script\<close>




section \<open>What numpy's \<^verbatim>\<open>argsort\<close> promises, and two sorts that keep the promise\<close>



text \<open>An insertion sort that leaves equal keys in their order.\<close>

fun ins_before :: "cell list \<Rightarrow> nat \<Rightarrow> nat list \<Rightarrow> nat list" where
  "ins_before xs i [] = [i]"
| "ins_before xs i (p # ps) =
     (if key_le (xs ! i) (xs ! p) then i # p # ps else p # ins_before xs i ps)"

definition stable_argsort :: "cell list \<Rightarrow> nat list" where
  "stable_argsort xs = foldr (ins_before xs) [0..<length xs] []"

text \<open>An insertion sort that reverses the order of equal keys.\<close>

fun ins_after :: "cell list \<Rightarrow> nat \<Rightarrow> nat list \<Rightarrow> nat list" where
  "ins_after xs i [] = [i]"
| "ins_after xs i (p # ps) =
     (if key_le (xs ! p) (xs ! i) then p # ins_after xs i ps else i # p # ps)"

definition reversing_argsort :: "cell list \<Rightarrow> nat list" where
  "reversing_argsort xs = foldr (ins_after xs) [0..<length xs] []"

section \<open>Example frames\<close>

text \<open>Three rows that meet the edges of the arithmetic: a score of exactly 0, a zero loan
  amount, and zero over zero. float64 gives the same derived cells on these rows as the exact arithmetic does.\<close>

definition ex_edge :: frame where
  "ex_edge =
     \<lparr>index = [0, 1, 2],
      cols = [(''age'', [Num (Fin 0), Num (Fin 40), Num (Fin 30)]),
              (''income'', [Num (Fin 0), Num (Fin 500), Num (Fin 0)]),
              (''loan_amount'', [Num (Fin 5), Num (Fin 0), Num (Fin 0)])]\<rparr>"

definition ex_edge_scored :: frame where
  "ex_edge_scored =
     \<lparr>index = [0, 1, 2],
      cols = [(''age'', [Num (Fin 0), Num (Fin 40), Num (Fin 30)]),
              (''income'', [Num (Fin 0), Num (Fin 500), Num (Fin 0)]),
              (''loan_amount'', [Num (Fin 5), Num (Fin 0), Num (Fin 0)]),
              (''income_to_loan_ratio'', [Num (Fin 0), Num PInf, Num NaN]),
              (''risk_score'', [Num (Fin 0), Num (Fin 1), Num NaN]),
              (''risk_level'', [Num NaN, Str ''High'', Num NaN])]\<rparr>"


text \<open>A file that already has a column named \<^verbatim>\<open>risk_score\<close>, as the report that the
  script offers for download has, and the frame that the score step makes of it.\<close>

definition ex_rescored :: frame where
  "ex_rescored =
     \<lparr>index = [0],
      cols = [(''age'', [Num (Fin 30)]), (''income'', [Num (Fin 10000)]),
              (''loan_amount'', [Num (Fin 100)]), (''risk_score'', [Num (Fin 0.5)])]\<rparr>"

definition ex_rescored_out :: frame where
  "ex_rescored_out =
     \<lparr>index = [0],
      cols = [(''age'', [Num (Fin 30)]), (''income'', [Num (Fin 10000)]),
              (''loan_amount'', [Num (Fin 100)]), (''risk_score'', [Num (Fin 1)]),
              (''income_to_loan_ratio'', [Num (Fin 100)]), (''risk_level'', [Str ''High''])]\<rparr>"

text \<open>A file whose income column holds text.\<close>

definition ex_text :: frame where
  "ex_text =
     \<lparr>index = [0],
      cols = [(''age'', [Num (Fin 30)]), (''income'', [Str ''unknown'']),
              (''loan_amount'', [Num (Fin 100)])]\<rparr>"

text \<open>Two borrowers of one region; the first has neither income nor loan, so that its
  ratio is zero over zero.\<close>

definition ex_region_gap :: frame where
  "ex_region_gap =
     \<lparr>index = [0, 1],
      cols = [(''age'', [Num (Fin 30), Num (Fin 30)]),
              (''income'', [Num (Fin 0), Num (Fin 10000)]),
              (''loan_amount'', [Num (Fin 0), Num (Fin 100)]),
              (''region'', [Str ''Accra'', Str ''Accra''])]\<rparr>"

definition ex_region_gap_scored :: frame where
  "ex_region_gap_scored =
     \<lparr>index = [0, 1],
      cols = [(''age'', [Num (Fin 30), Num (Fin 30)]),
              (''income'', [Num (Fin 0), Num (Fin 10000)]),
              (''loan_amount'', [Num (Fin 0), Num (Fin 100)]),
              (''region'', [Str ''Accra'', Str ''Accra'']),
              (''income_to_loan_ratio'', [Num NaN, Num (Fin 100)]),
              (''risk_score'', [Num NaN, Num (Fin 1)]),
              (''risk_level'', [Num NaN, Str ''High''])]\<rparr>"

text \<open>The scored dataset of the regional scenario of the specification.\<close>

definition ex_regions :: frame where
  "ex_regions =
     \<lparr>index = [0, 1, 2],
      cols = [(''region'', [Str ''Accra'', Str ''Accra'', Str ''Kumasi'']),
              (''risk_score'', [Num (Fin 0.8), Num (Fin 0.2), Num (Fin 0.9)]),
              (''risk_level'', [Str ''High'', Str ''Low'', Str ''High''])]\<rparr>"


definition ex_ties :: frame where
  "ex_ties =
     \<lparr>index = [0, 1],
      cols = [(''age'', [Num (Fin 30), Num (Fin 30)]),
              (''income'', [Num (Fin 10000), Num (Fin 20000)]),
              (''loan_amount'', [Num (Fin 100), Num (Fin 100)]),
              (''income_to_loan_ratio'', [Num (Fin 100), Num (Fin 200)]),
              (''risk_score'', [Num (Fin 1), Num (Fin 1)]),
              (''risk_level'', [Str ''High'', Str ''High''])]\<rparr>"



section \<open>Facts about columns and the scoring step\<close>

lemma those_eq_Some: "those xs = Some ys \<longleftrightarrow> xs = map Some ys"
  by (induction xs arbitrary: ys) (auto split: option.splits)

lemma those_map_nth:
  assumes "those (map f xs) = Some ys"
  shows "length ys = length xs" and "i < length xs \<Longrightarrow> f (xs ! i) = Some (ys ! i)"
proof -
  from assms have eq: "map f xs = map Some ys" by (simp add: those_eq_Some)
  then show len: "length ys = length xs" by (metis length_map)
  show "i < length xs \<Longrightarrow> f (xs ! i) = Some (ys ! i)"
    using eq len by (metis nth_map)
qed

lemma those_map_total:
  assumes "\<And>x. x \<in> set xs \<Longrightarrow> f x \<noteq> None"
  shows "\<exists>ys. those (map f xs) = Some ys"
  using assms by (induction xs) (auto split: option.splits)

lemma map_of_upd_assoc: "map_of (upd_assoc c vs kvs) k = (if k = c then Some vs else map_of kvs k)"
  by (induction kvs) auto

lemma keys_upd_assoc:
  "map fst (upd_assoc c vs kvs) = (if c \<in> set (map fst kvs) then map fst kvs else map fst kvs @ [c])"
  by (induction kvs) force+

lemma set_upd_assoc:
  "set (upd_assoc c vs kvs) \<subseteq> insert (c, vs) (set kvs)"
  by (induction kvs) (auto split: if_splits)

lemma get_col_set_col:
  "get_col (set_col df c vs) k = (if k = c then Inr vs else get_col df k)"
  by (simp add: get_col_def set_col_def map_of_upd_assoc)

lemma index_set_col: "index (set_col df c vs) = index df"
  by (simp add: set_col_def)

lemma bind_err_Inr:
  "bind_err m f = Inr y \<longleftrightarrow> (\<exists>x. m = Inr x \<and> f x = Inr y)"
  by (cases m) (simp_all add: bind_err_def)

lemma series_binop_Inr: "series_binop f xs ys = Inr zs \<longleftrightarrow> those (map2 (cell_binop f) xs ys) = Some zs"
  by (simp add: series_binop_def split: option.splits)
lemma series_scale_Inr: "series_scale xs k = Inr zs \<longleftrightarrow> those (map (\<lambda>x. cell_binop fmul x (Num (Fin k))) xs) = Some zs"
  by (simp add: series_scale_def split: option.splits)
lemma np_clip_Inr: "np_clip xs lo hi = Inr zs \<longleftrightarrow> those (map (cell_clip lo hi) xs) = Some zs"
  by (simp add: np_clip_def split: option.splits)
lemma pd_cut_Inr: "pd_cut xs bins labels = Inr zs \<longleftrightarrow> those (map (cut_cell bins labels) xs) = Some zs"
  by (simp add: pd_cut_def split: option.splits)
lemma get_col_Inr: "get_col df c = Inr vs \<longleftrightarrow> map_of (cols df) c = Some vs"
  by (simp add: get_col_def split: option.splits)

lemma score_unfold:
  "score df = Inr df' \<longleftrightarrow>
     (\<exists>income loan ratio a age b s rs lv.
        map_of (cols df) ''income'' = Some income \<and>
        map_of (cols df) ''loan_amount'' = Some loan \<and>
        map_of (cols df) ''age'' = Some age \<and>
        those (map2 (cell_binop fdiv) income loan) = Some ratio \<and>
        those (map (\<lambda>x. cell_binop fmul x (Num (Fin 0.3))) ratio) = Some a \<and>
        those (map (\<lambda>x. cell_binop fmul x (Num (Fin 0.01))) age) = Some b \<and>
        those (map2 (cell_binop fadd) a b) = Some s \<and>
        those (map (cell_clip 0 1) s) = Some rs \<and>
        those (map (cut_cell [0, 0.3, 0.7, 1] [''Low'', ''Medium'', ''High'']) rs) = Some lv \<and>
        df' = set_col (set_col (set_col df ''income_to_loan_ratio'' ratio) ''risk_score'' rs) ''risk_level'' lv)"
  unfolding score_def Let_def bind_err_Inr get_col_set_col series_binop_Inr series_scale_Inr
    np_clip_Inr pd_cut_Inr get_col_Inr
  by (auto simp: get_col_Inr)

lemma wf_col_length:
  assumes "wf_frame df" "map_of (cols df) c = Some vs"
  shows "length vs = nrows df"
proof -
  from assms(2) have "(c, vs) \<in> set (cols df)" by (rule map_of_SomeD)
  with assms(1) show ?thesis by (auto simp: wf_frame_def list_all_iff)
qed

lemma cell_binop_Some:
  "cell_binop f x y = Some z \<longleftrightarrow> (\<exists>a b. x = Num a \<and> y = Num b \<and> z = Num (f a b))"
  by (cases x; cases y) auto

lemma cell_clip_Some:
  "cell_clip lo hi x = Some z \<longleftrightarrow> (\<exists>a. x = Num a \<and> z = Num (clip a (Fin lo) (Fin hi)))"
  by (cases x) auto

lemma those_map2_nth:
  assumes "those (map2 f xs ys) = Some zs" "length xs = length ys"
  shows "length zs = length xs" and "i < length xs \<Longrightarrow> f (xs ! i) (ys ! i) = Some (zs ! i)"
proof -
  from those_map_nth(1)[OF assms(1)] assms(2) show "length zs = length xs" by simp
  assume "i < length xs"
  then have "i < length (zip xs ys)" using assms(2) by simp
  from those_map_nth(2)[OF assms(1) this] \<open>i < length xs\<close> assms(2)
  show "f (xs ! i) (ys ! i) = Some (zs ! i)" by simp
qed

lemma cell_at_set_col:
  "cell_at (set_col df c vs) k i =
     (if k = c then (if i < length vs then Some (vs ! i) else None) else cell_at df k i)"
  by (simp add: cell_at_def set_col_def map_of_upd_assoc)

lemma cell_at_col:
  "map_of (cols df) c = Some vs \<Longrightarrow> i < length vs \<Longrightarrow> cell_at df c i = Some (vs ! i)"
  by (simp add: cell_at_def)

lemma score_row:
  assumes wf: "wf_frame df" and sc: "score df = Inr df'" and i: "i < nrows df"
  shows "\<exists>a inc loan.
     cell_at df ''age'' i = Some (Num a) \<and>
     cell_at df ''income'' i = Some (Num inc) \<and>
     cell_at df ''loan_amount'' i = Some (Num loan) \<and>
     cell_at df' ''income_to_loan_ratio'' i = Some (Num (fdiv inc loan)) \<and>
     cell_at df' ''risk_score'' i =
       Some (Num (clip (fadd (fmul (fdiv inc loan) (Fin 0.3)) (fmul a (Fin 0.01))) (Fin 0) (Fin 1))) \<and>
     cell_at df' ''risk_level'' i =
       cut_cell [0, 0.3, 0.7, 1] [''Low'', ''Medium'', ''High'']
         (Num (clip (fadd (fmul (fdiv inc loan) (Fin 0.3)) (fmul a (Fin 0.01))) (Fin 0) (Fin 1)))"
proof -
  from sc obtain income loan ratio a age b s rs lv where
    c1: "map_of (cols df) ''income'' = Some income" and
    c2: "map_of (cols df) ''loan_amount'' = Some loan" and
    c3: "map_of (cols df) ''age'' = Some age" and
    t1: "those (map2 (cell_binop fdiv) income loan) = Some ratio" and
    t2: "those (map (\<lambda>x. cell_binop fmul x (Num (Fin 0.3))) ratio) = Some a" and
    t3: "those (map (\<lambda>x. cell_binop fmul x (Num (Fin 0.01))) age) = Some b" and
    t4: "those (map2 (cell_binop fadd) a b) = Some s" and
    t5: "those (map (cell_clip 0 1) s) = Some rs" and
    t6: "those (map (cut_cell [0, 0.3, 0.7, 1] [''Low'', ''Medium'', ''High'']) rs) = Some lv" and
    df': "df' = set_col (set_col (set_col df ''income_to_loan_ratio'' ratio) ''risk_score'' rs) ''risk_level'' lv"
    unfolding score_unfold by blast
  let ?n = "nrows df"
  have l1: "length income = ?n" and l2: "length loan = ?n" and l3: "length age = ?n"
    using wf c1 c2 c3 by (auto dest: wf_col_length)
  have lr: "length ratio = ?n" using those_map2_nth(1)[OF t1] l1 l2 by simp
  have la: "length a = ?n" using those_map_nth(1)[OF t2] lr by simp
  have lb: "length b = ?n" using those_map_nth(1)[OF t3] l3 by simp
  have ls: "length s = ?n" using those_map2_nth(1)[OF t4] la lb by simp
  have lrs: "length rs = ?n" using those_map_nth(1)[OF t5] ls by simp
  have llv: "length lv = ?n" using those_map_nth(1)[OF t6] lrs by simp
  have "cell_binop fdiv (income ! i) (loan ! i) = Some (ratio ! i)"
    using those_map2_nth(2)[OF t1, of i] l1 l2 i by simp
  then obtain x y where xy: "income ! i = Num x" "loan ! i = Num y" "ratio ! i = Num (fdiv x y)"
    unfolding cell_binop_Some by blast
  have "cell_binop fmul (ratio ! i) (Num (Fin 0.3)) = Some (a ! i)"
    using those_map_nth(2)[OF t2, of i] lr i by simp
  then have ai: "a ! i = Num (fmul (fdiv x y) (Fin 0.3))"
    unfolding cell_binop_Some using xy by auto
  have "cell_binop fmul (age ! i) (Num (Fin 0.01)) = Some (b ! i)"
    using those_map_nth(2)[OF t3, of i] l3 i by simp
  then obtain z where z: "age ! i = Num z" "b ! i = Num (fmul z (Fin 0.01))"
    unfolding cell_binop_Some by auto
  have "cell_binop fadd (a ! i) (b ! i) = Some (s ! i)"
    using those_map2_nth(2)[OF t4, of i] la lb i by simp
  then have si: "s ! i = Num (fadd (fmul (fdiv x y) (Fin 0.3)) (fmul z (Fin 0.01)))"
    unfolding cell_binop_Some using ai z by auto
  have "cell_clip 0 1 (s ! i) = Some (rs ! i)"
    using those_map_nth(2)[OF t5, of i] ls i by simp
  then have rsi: "rs ! i = Num (clip (fadd (fmul (fdiv x y) (Fin 0.3)) (fmul z (Fin 0.01))) (Fin 0) (Fin 1))"
    unfolding cell_clip_Some using si by auto
  have lvi: "cut_cell [0, 0.3, 0.7, 1] [''Low'', ''Medium'', ''High''] (rs ! i) = Some (lv ! i)"
    using those_map_nth(2)[OF t6, of i] lrs i by simp
  have "cell_at df ''age'' i = Some (Num z)"
    using cell_at_col[OF c3, of i] l3 i z by simp
  moreover have "cell_at df ''income'' i = Some (Num x)"
    using cell_at_col[OF c1, of i] l1 i xy by simp
  moreover have "cell_at df ''loan_amount'' i = Some (Num y)"
    using cell_at_col[OF c2, of i] l2 i xy by simp
  moreover have "cell_at df' ''income_to_loan_ratio'' i = Some (Num (fdiv x y))"
    using lr i xy by (simp add: df' cell_at_set_col)
  moreover have "cell_at df' ''risk_score'' i = Some (rs ! i)"
    using lrs i by (simp add: df' cell_at_set_col)
  moreover have "cell_at df' ''risk_level'' i = Some (lv ! i)"
    using llv i by (simp add: df' cell_at_set_col)
  ultimately show ?thesis using rsi lvi by auto
qed

lemma those_map_all:
  assumes "those (map f xs) = Some ys" "\<And>x y. x \<in> set xs \<Longrightarrow> f x = Some y \<Longrightarrow> P y"
  shows "list_all P ys"
proof -
  have "P (ys ! i)" if "i < length ys" for i
  proof -
    have "i < length xs" using that those_map_nth(1)[OF assms(1)] by simp
    then show ?thesis using those_map_nth(2)[OF assms(1), of i] assms(2)[of "xs ! i" "ys ! i"] by simp
  qed
  then show ?thesis by (simp add: list_all_length)
qed

lemma is_number_iff: "is_number x \<longleftrightarrow> (\<exists>a. x = Num a)"
  by (cases x) auto

lemma binop_total:
  assumes "list_all is_number xs" "list_all is_number ys"
  shows "\<exists>zs. those (map2 (cell_binop f) xs ys) = Some zs \<and> list_all is_number zs"
proof -
  have "\<exists>zs. those (map2 (cell_binop f) xs ys) = Some zs"
  proof (rule those_map_total)
    fix p assume "p \<in> set (zip xs ys)"
    then have "(fst p, snd p) \<in> set (zip xs ys)" by simp
    then have "fst p \<in> set xs" "snd p \<in> set ys"
      by (rule set_zip_leftD, rule set_zip_rightD)
    with assms have "is_number (fst p)" "is_number (snd p)"
      by (simp_all add: list_all_iff)
    then obtain a b where "fst p = Num a" "snd p = Num b"
      unfolding is_number_iff by blast
    then show "(case p of (x, y) \<Rightarrow> cell_binop f x y) \<noteq> None" by (cases p) simp
  qed
  then obtain zs where zs: "those (map2 (cell_binop f) xs ys) = Some zs" ..
  have "list_all is_number zs"
    by (rule those_map_all[OF zs]) (auto simp: cell_binop_Some)
  with zs show ?thesis by blast
qed

lemma scale_total:
  assumes "list_all is_number xs"
  shows "\<exists>zs. those (map (\<lambda>x. cell_binop fmul x (Num (Fin k))) xs) = Some zs \<and> list_all is_number zs"
proof -
  have "\<exists>zs. those (map (\<lambda>x. cell_binop fmul x (Num (Fin k))) xs) = Some zs"
    by (rule those_map_total) (use assms in \<open>auto simp: list_all_iff is_number_iff\<close>)
  then obtain zs where zs: "those (map (\<lambda>x. cell_binop fmul x (Num (Fin k))) xs) = Some zs" ..
  have "list_all is_number zs"
    by (rule those_map_all[OF zs]) (auto simp: cell_binop_Some)
  with zs show ?thesis by blast
qed

lemma clip_total:
  assumes "list_all is_number xs"
  shows "\<exists>zs. those (map (cell_clip lo hi) xs) = Some zs \<and> list_all is_number zs"
proof -
  have "\<exists>zs. those (map (cell_clip lo hi) xs) = Some zs"
    by (rule those_map_total) (use assms in \<open>auto simp: list_all_iff is_number_iff\<close>)
  then obtain zs where zs: "those (map (cell_clip lo hi) xs) = Some zs" ..
  have "list_all is_number zs"
    by (rule those_map_all[OF zs]) (auto simp: cell_clip_Some)
  with zs show ?thesis by blast
qed

lemma cut_total:
  assumes "list_all is_number xs"
  shows "\<exists>zs. those (map (cut_cell bins labels) xs) = Some zs"
  by (rule those_map_total) (use assms in \<open>auto simp: list_all_iff is_number_iff Let_def\<close>)

lemma numeric_colD:
  "numeric_col df c \<Longrightarrow> \<exists>vs. map_of (cols df) c = Some vs \<and> list_all is_number vs"
  by (auto simp: numeric_col_def split: option.splits)

lemma score_total:
  assumes "numeric_col df ''age''" "numeric_col df ''income''" "numeric_col df ''loan_amount''"
  shows "\<exists>df'. score df = Inr df'"
proof -
  from assms obtain age income loan where
    c: "map_of (cols df) ''age'' = Some age" "map_of (cols df) ''income'' = Some income"
       "map_of (cols df) ''loan_amount'' = Some loan" and
    n: "list_all is_number age" "list_all is_number income" "list_all is_number loan"
    by (blast dest: numeric_colD)
  from binop_total[OF n(2) n(3)] obtain ratio where
    t1: "those (map2 (cell_binop fdiv) income loan) = Some ratio" and n1: "list_all is_number ratio" by blast
  from scale_total[OF n1] obtain a where
    t2: "those (map (\<lambda>x. cell_binop fmul x (Num (Fin 0.3))) ratio) = Some a" and n2: "list_all is_number a" by blast
  from scale_total[OF n(1)] obtain b where
    t3: "those (map (\<lambda>x. cell_binop fmul x (Num (Fin 0.01))) age) = Some b" and n3: "list_all is_number b" by blast
  from binop_total[OF n2 n3] obtain s where
    t4: "those (map2 (cell_binop fadd) a b) = Some s" and n4: "list_all is_number s" by blast
  from clip_total[OF n4] obtain rs where
    t5: "those (map (cell_clip 0 1) s) = Some rs" and n5: "list_all is_number rs" by blast
  from cut_total[OF n5] obtain lv where
    t6: "those (map (cut_cell [0, 0.3, 0.7, 1] [''Low'', ''Medium'', ''High'']) rs) = Some lv" by blast
  show ?thesis unfolding score_unfold using c t1 t2 t3 t4 t5 t6 by blast
qed

lemma clip_01_Fin: "clip (Fin r) (Fin 0) (Fin 1) = Fin (max 0 (min 1 r))"
  by (simp add: clip_def np_maximum_def np_minimum_def max_def min_def)

lemma searchsorted_Fin:
  "searchsorted_left [0, 0.3, 0.7, 1] (Fin r) =
     (if 1 < r then 4 else if 0.7 < r then 3 else if 0.3 < r then 2 else if 0 < r then 1 else 0)"
  by (simp add: searchsorted_left_def)

lemma searchsorted_inf:
  "searchsorted_left [0, 0.3, 0.7, 1] PInf = 4"
  "searchsorted_left [0, 0.3, 0.7, 1] NInf = 0"
  "searchsorted_left [0, 0.3, 0.7, 1] NaN = 0"
  by (simp_all add: searchsorted_left_def)

lemma cut_Fin:
  "cut_cell [0, 0.3, 0.7, 1] [''Low'', ''Medium'', ''High''] (Num (Fin r)) =
     Some (if 1 < r then Num NaN else if 0.7 < r then Str ''High''
           else if 0.3 < r then Str ''Medium'' else if 0 < r then Str ''Low'' else Num NaN)"
  unfolding cut_cell.simps searchsorted_Fin Let_def by simp

lemma cut_inf:
  "cut_cell [0, 0.3, 0.7, 1] [''Low'', ''Medium'', ''High''] (Num PInf) = Some (Num NaN)"
  "cut_cell [0, 0.3, 0.7, 1] [''Low'', ''Medium'', ''High''] (Num NInf) = Some (Num NaN)"
  "cut_cell [0, 0.3, 0.7, 1] [''Low'', ''Medium'', ''High''] (Num NaN) = Some (Num NaN)"
  unfolding cut_cell.simps searchsorted_inf Let_def by simp_all

lemma cut_levels:
  "\<exists>lv. cut_cell [0, 0.3, 0.7, 1] [''Low'', ''Medium'', ''High''] (Num s) = Some lv \<and>
     (lv = Str ''Low'' \<longleftrightarrow> num_less (Fin 0) s \<and> num_le s (Fin 0.3)) \<and>
     (lv = Str ''Medium'' \<longleftrightarrow> num_less (Fin 0.3) s \<and> num_le s (Fin 0.7)) \<and>
     (lv = Str ''High'' \<longleftrightarrow> num_less (Fin 0.7) s \<and> num_le s (Fin 1)) \<and>
     (lv = Num NaN \<longleftrightarrow> \<not> (num_less (Fin 0) s \<and> num_le s (Fin 1))) \<and>
     (s = Fin 0 \<longrightarrow> lv = Num NaN)"
proof (cases s)
  case (Fin r)
  consider "1 < r" | "0.7 < r" "r \<le> 1" | "0.3 < r" "r \<le> 0.7" | "0 < r" "r \<le> 0.3" | "r \<le> 0"
    by linarith
  then show ?thesis
  proof cases
    case 1
    then have "cut_cell [0, 0.3, 0.7, 1] [''Low'', ''Medium'', ''High''] (Num s) = Some (Num NaN)"
      unfolding Fin cut_Fin by simp
    with 1 show ?thesis unfolding Fin by simp
  next
    case 2
    then have "cut_cell [0, 0.3, 0.7, 1] [''Low'', ''Medium'', ''High''] (Num s) = Some (Str ''High'')"
      unfolding Fin cut_Fin by simp
    with 2 show ?thesis unfolding Fin by simp
  next
    case 3
    then have "cut_cell [0, 0.3, 0.7, 1] [''Low'', ''Medium'', ''High''] (Num s) = Some (Str ''Medium'')"
      unfolding Fin cut_Fin by simp
    with 3 show ?thesis unfolding Fin by simp
  next
    case 4
    then have "cut_cell [0, 0.3, 0.7, 1] [''Low'', ''Medium'', ''High''] (Num s) = Some (Str ''Low'')"
      unfolding Fin cut_Fin by simp
    with 4 show ?thesis unfolding Fin by simp
  next
    case 5
    then have "cut_cell [0, 0.3, 0.7, 1] [''Low'', ''Medium'', ''High''] (Num s) = Some (Num NaN)"
      unfolding Fin cut_Fin by simp
    with 5 show ?thesis unfolding Fin by simp
  qed
next
  case PInf then show ?thesis unfolding PInf cut_inf by simp
next
  case NInf then show ?thesis unfolding NInf cut_inf by simp
next
  case NaN then show ?thesis unfolding NaN cut_inf by simp
qed

lemmas eval_defs = score_def bind_err_def get_col_def set_col_def series_binop_def series_scale_def
  np_clip_def pd_cut_def clip_def np_maximum_def np_minimum_def searchsorted_left_def

lemmas frame_defs = wf_frame_def columns_def nrows_def numeric_col_def cell_at_def

lemma score_ex_edge: "score ex_edge = Inr ex_edge_scored"
  by (simp add: ex_edge_def ex_edge_scored_def eval_defs)

lemma wf_ex_edge: "wf_frame ex_edge"
  by (simp add: ex_edge_def frame_defs)

lemma numeric_ex_edge:
  "numeric_col ex_edge ''age''" "numeric_col ex_edge ''income''" "numeric_col ex_edge ''loan_amount''"
  by (simp_all add: ex_edge_def frame_defs)

lemma clip_01_cases:
  "clip v (Fin 0) (Fin 1) = NaN \<and> v = NaN \<or>
   (\<exists>s. clip v (Fin 0) (Fin 1) = Fin s \<and> 0 \<le> s \<and> s \<le> 1 \<and>
        (num_less v (Fin 0) \<longrightarrow> s = 0) \<and> (num_less (Fin 1) v \<longrightarrow> s = 1) \<and>
        (num_le (Fin 0) v \<and> num_le v (Fin 1) \<longrightarrow> v = Fin s))"
  by (cases v) (simp_all add: clip_def np_maximum_def np_minimum_def)


lemma wf_set_col:
  assumes "wf_frame df" and "length vs = nrows df"
  shows "wf_frame (set_col df c vs)"
proof -
  have d: "distinct (map fst (upd_assoc c vs (cols df)))"
    using assms(1) by (simp add: keys_upd_assoc wf_frame_def columns_def)
  have "length ws = nrows df" if "(k, ws) \<in> set (upd_assoc c vs (cols df))" for k ws
  proof -
    from that set_upd_assoc[of c vs "cols df"] have "(k, ws) = (c, vs) \<or> (k, ws) \<in> set (cols df)"
      by blast
    then show ?thesis using assms by (auto simp: wf_frame_def list_all_iff)
  qed
  then have "list_all (\<lambda>(k, ws). length ws = nrows df) (upd_assoc c vs (cols df))"
    unfolding list_all_iff by blast
  with d show ?thesis by (simp add: wf_frame_def set_col_def columns_def nrows_def)
qed

lemma nrows_set_col: "nrows (set_col df c vs) = nrows df"
  by (simp add: nrows_def set_col_def)

lemma columns_set_col:
  "columns (set_col df c vs) = (if c \<in> set (columns df) then columns df else columns df @ [c])"
  by (simp add: columns_def set_col_def keys_upd_assoc)

lemma map_of_set_col:
  "map_of (cols (set_col df c vs)) k = (if k = c then Some vs else map_of (cols df) k)"
  by (simp add: set_col_def map_of_upd_assoc)

text \<open>The shape of a scored frame: the input with three columns assigned, each of one
  cell per row.\<close>

lemma score_shape:
  assumes wf: "wf_frame df" and sc: "score df = Inr df'"
  shows "\<exists>ratio rs lv.
           length ratio = nrows df \<and> length rs = nrows df \<and> length lv = nrows df \<and>
           df' = set_col (set_col (set_col df ''income_to_loan_ratio'' ratio) ''risk_score'' rs)
                   ''risk_level'' lv"
proof -
  from sc obtain income loan ratio a age b s rs lv where
    c1: "map_of (cols df) ''income'' = Some income" and
    c2: "map_of (cols df) ''loan_amount'' = Some loan" and
    c3: "map_of (cols df) ''age'' = Some age" and
    t1: "those (map2 (cell_binop fdiv) income loan) = Some ratio" and
    t2: "those (map (\<lambda>x. cell_binop fmul x (Num (Fin 0.3))) ratio) = Some a" and
    t3: "those (map (\<lambda>x. cell_binop fmul x (Num (Fin 0.01))) age) = Some b" and
    t4: "those (map2 (cell_binop fadd) a b) = Some s" and
    t5: "those (map (cell_clip 0 1) s) = Some rs" and
    t6: "those (map (cut_cell [0, 0.3, 0.7, 1] [''Low'', ''Medium'', ''High'']) rs) = Some lv" and
    df': "df' = set_col (set_col (set_col df ''income_to_loan_ratio'' ratio) ''risk_score'' rs) ''risk_level'' lv"
    unfolding score_unfold by blast
  let ?n = "nrows df"
  have l1: "length income = ?n" and l2: "length loan = ?n" and l3: "length age = ?n"
    using wf c1 c2 c3 by (auto dest: wf_col_length)
  have lr: "length ratio = ?n" using those_map2_nth(1)[OF t1] l1 l2 by simp
  have la: "length a = ?n" using those_map_nth(1)[OF t2] lr by simp
  have lb: "length b = ?n" using those_map_nth(1)[OF t3] l3 by simp
  have ls: "length s = ?n" using those_map2_nth(1)[OF t4] la lb by simp
  have lrs: "length rs = ?n" using those_map_nth(1)[OF t5] ls by simp
  have llv: "length lv = ?n" using those_map_nth(1)[OF t6] lrs by simp
  from lr lrs llv df' show ?thesis by blast
qed

lemma wf_score:
  assumes "wf_frame df" and "score df = Inr df'"
  shows "wf_frame df'" and "index df' = index df" and "nrows df' = nrows df"
proof -
  from score_shape[OF assms] obtain ratio rs lv where
    l: "length ratio = nrows df" "length rs = nrows df" "length lv = nrows df" and
    df': "df' = set_col (set_col (set_col df ''income_to_loan_ratio'' ratio) ''risk_score'' rs)
                   ''risk_level'' lv"
    by blast
  show "wf_frame df'" unfolding df'
    by (intro wf_set_col assms(1)) (simp_all add: nrows_set_col l)
  show "index df' = index df" unfolding df' by (simp add: index_set_col)
  then show "nrows df' = nrows df" by (simp add: nrows_def)
qed

lemma map_of_row_at: "map_of (row_at df i) c = map_option (\<lambda>vs. vs ! i) (map_of (cols df) c)"
  unfolding row_at_def by (induction "cols df" arbitrary: df) (auto simp: map_of_map)

lemma filter_eq_index:
  assumes "distinct xs" and "i < length xs"
  shows "filter (\<lambda>j. xs ! j = xs ! i) [0..<length xs] = [i]"
proof -
  have "filter (\<lambda>j. xs ! j = xs ! i) [0..<length xs] = filter (\<lambda>j. j = i) [0..<length xs]"
    using assms by (intro filter_cong refl) (auto simp: nth_eq_iff_index_eq)
  also have "\<dots> = [i]" using assms(2)
    by (induction xs rule: rev_induct) (auto simp: less_Suc_eq)
  finally show ?thesis .
qed

lemma loc_at:
  assumes "distinct (index df)" and "i < nrows df"
  shows "loc df (index df ! i) = Inr (row_at df i)"
  using filter_eq_index[OF assms(1), of i] assms(2) by (simp add: loc_def nrows_def)

lemma field_row_at:
  assumes "cell_at df c i = Some v"
  shows "field (row_at df i) c = Inr v"
  using assms by (auto simp: field_def map_of_row_at cell_at_def split: option.splits if_splits)


lemma score_ex_rescored: "score ex_rescored = Inr ex_rescored_out"
  by (simp add: ex_rescored_def ex_rescored_out_def eval_defs)

lemma score_ex_text: "score ex_text = Inl TypeError"
  by (simp add: ex_text_def eval_defs)

lemma columns_score:
  assumes "wf_frame df" and "score df = Inr df'"
  shows "columns df' =
           columns df @ filter (\<lambda>c. c \<notin> set (columns df))
                          [''income_to_loan_ratio'', ''risk_score'', ''risk_level'']"
proof -
  from score_shape[OF assms] obtain ratio rs lv where
    df': "df' = set_col (set_col (set_col df ''income_to_loan_ratio'' ratio) ''risk_score'' rs)
                   ''risk_level'' lv"
    by blast
  show ?thesis unfolding df' by (simp add: columns_set_col)
qed

lemma other_columns_score:
  assumes "wf_frame df" and "score df = Inr df'"
    and "c \<noteq> ''income_to_loan_ratio''" and "c \<noteq> ''risk_score''" and "c \<noteq> ''risk_level''"
  shows "map_of (cols df') c = map_of (cols df) c"
proof -
  from score_shape[OF assms(1,2)] obtain ratio rs lv where
    df': "df' = set_col (set_col (set_col df ''income_to_loan_ratio'' ratio) ''risk_score'' rs)
                   ''risk_level'' lv"
    by blast
  show ?thesis unfolding df' using assms(3-5) by (simp add: map_of_set_col)
qed

lemma derived_columns_score:
  assumes "wf_frame df" and "score df = Inr df'"
    and "c = ''income_to_loan_ratio'' \<or> c = ''risk_score'' \<or> c = ''risk_level''"
  shows "\<exists>vs. map_of (cols df') c = Some vs \<and> length vs = nrows df"
proof -
  from score_shape[OF assms(1,2)] obtain ratio rs lv where
    l: "length ratio = nrows df" "length rs = nrows df" "length lv = nrows df" and
    df': "df' = set_col (set_col (set_col df ''income_to_loan_ratio'' ratio) ''risk_score'' rs)
                   ''risk_level'' lv"
    by blast
  from assms(3) show ?thesis unfolding df' using l by (auto simp: map_of_set_col)
qed

lemma wf_ex_edge_scored: "wf_frame ex_edge_scored"
  by (simp add: ex_edge_scored_def frame_defs)

lemma nrows_take_rows: "nrows (take_rows df ps) = length ps"
  by (simp add: nrows_def take_rows_def)

lemma columns_take_rows: "columns (take_rows df ps) = columns df"
  by (simp add: columns_def take_rows_def case_prod_unfold comp_def)

lemma row_at_take_rows:
  assumes "j < length ps"
  shows "row_at (take_rows df ps) j = row_at df (ps ! j)"
  using assms by (simp add: row_at_def take_rows_def case_prod_unfold comp_def)

text \<open>Taking rows by position gives those rows, labelled as they were, in the order of the
  positions.\<close>

lemma rows_take_rows:
  "rows (take_rows df ps) = map (\<lambda>p. (index df ! p, row_at df p)) ps"
proof (rule nth_equalityI)
  show "length (rows (take_rows df ps)) = length (map (\<lambda>p. (index df ! p, row_at df p)) ps)"
    by (simp add: rows_def nrows_take_rows)
next
  fix j assume "j < length (rows (take_rows df ps))"
  then have j: "j < length ps" by (simp add: rows_def nrows_take_rows)
  then show "rows (take_rows df ps) ! j = map (\<lambda>p. (index df ! p, row_at df p)) ps ! j"
    by (simp add: rows_def nrows_take_rows row_at_take_rows) (simp add: take_rows_def)
qed

lemma nonzero_series_eq:
  "nonzero (series_eq xs s) = filter (\<lambda>i. xs ! i = Str s) [0..<length xs]"
  unfolding nonzero_def series_eq_def by (rule filter_cong) simp_all

lemma filter_rows:
  "filter P (rows df) = map (\<lambda>i. (index df ! i, row_at df i))
                          (filter (\<lambda>i. P (index df ! i, row_at df i)) [0..<nrows df])"
  by (simp add: rows_def filter_map comp_def)

lemma rows_bool_index_level:
  assumes wf: "wf_frame df" and lv: "map_of (cols df) ''risk_level'' = Some lv"
  shows "rows (bool_index df (series_eq lv level)) =
           filter (\<lambda>(l, r). map_of r ''risk_level'' = Some (Str level)) (rows df)"
proof -
  have len: "length lv = nrows df" by (rule wf_col_length[OF wf lv])
  have "filter (\<lambda>i. lv ! i = Str level) [0..<length lv] =
        filter (\<lambda>i. map_of (row_at df i) ''risk_level'' = Some (Str level)) [0..<nrows df]"
    unfolding len by (rule filter_cong) (simp_all add: map_of_row_at lv)
  then show ?thesis
    by (simp add: bool_index_def rows_take_rows nonzero_series_eq filter_rows)
qed

lemmas region_defs = region_summary_def columns_def bind_err_def get_col_def group_keys_def
  sort_keys_def group_positions_def agg_count_def agg_mean_def agg_high_def fsum_def
  series_eq_def upt_rec

lemma score_ex_region_gap: "score ex_region_gap = Inr ex_region_gap_scored"
  by (simp add: ex_region_gap_def ex_region_gap_scored_def eval_defs)

lemma region_summary_scenario:
  "region_summary ex_regions =
     Inr (Some \<lparr>index = [0, 1],
                cols = [(''region'', [Str ''Accra'', Str ''Kumasi'']),
                        (''total_borrowers'', [Num (Fin 2), Num (Fin 1)]),
                        (''avg_risk_score'', [Num (Fin 0.5), Num (Fin 0.9)]),
                        (''high_risk_pct'', [Num (Fin 0.5), Num (Fin 1)])]\<rparr>)"
  by (simp add: ex_regions_def region_defs)

subsection \<open>The order of the keys of a numeric column\<close>







subsection \<open>The two insertion sorts keep the promise of \<^verbatim>\<open>argsort\<close>\<close>











subsection \<open>Sorting a column descending\<close>





subsection \<open>The first rows of a frame\<close>







lemmas sort_defs = top_risk_def sort_values_desc_def bind_err_def get_col_def nargsort_desc_def
  take_rows_def head_def stable_argsort_def reversing_argsort_def




lemma top_risk_stable_ex_ties: "top_risk stable_argsort 5 ex_ties = Inr ex_ties"
  by (simp add: ex_ties_def sort_defs)





subsection \<open>Sorting a sorted frame again\<close>









section \<open>The claims\<close>

text \<open>
  C2. After the score step the risk level of a row is Low exactly when its risk score
  is above 0 and at most 0.3, Medium exactly when it is above 0.3 and at most 0.7, and
  High exactly when it is above 0.7 and at most 1. No level is assigned, the cell is
  missing, exactly when the score is 0 or is itself undefined; so a score of exactly 0
  gets no level.
\<close>

theorem risk_level_bins:
  assumes "wf_frame df" and "score df = Inr df'" and "i < nrows df"
  shows "\<exists>s lv. cell_at df' ''risk_score'' i = Some (Num s) \<and>
           cell_at df' ''risk_level'' i = Some lv \<and>
           (lv = Str ''Low'' \<longleftrightarrow> num_less (Fin 0) s \<and> num_le s (Fin 0.3)) \<and>
           (lv = Str ''Medium'' \<longleftrightarrow> num_less (Fin 0.3) s \<and> num_le s (Fin 0.7)) \<and>
           (lv = Str ''High'' \<longleftrightarrow> num_less (Fin 0.7) s \<and> num_le s (Fin 1)) \<and>
           (lv = Num NaN \<longleftrightarrow> s = Fin 0 \<or> s = NaN)"
proof -
  from score_row[OF assms] obtain a inc loan where
    rs: "cell_at df' ''risk_score'' i =
           Some (Num (clip (fadd (fmul (fdiv inc loan) (Fin 0.3)) (fmul a (Fin 0.01))) (Fin 0) (Fin 1)))"
    and rl: "cell_at df' ''risk_level'' i =
           cut_cell [0, 0.3, 0.7, 1] [''Low'', ''Medium'', ''High'']
             (Num (clip (fadd (fmul (fdiv inc loan) (Fin 0.3)) (fmul a (Fin 0.01))) (Fin 0) (Fin 1)))"
    by blast
  define v where "v = fadd (fmul (fdiv inc loan) (Fin 0.3)) (fmul a (Fin 0.01))"
  define s where "s = clip v (Fin 0) (Fin 1)"
  from cut_levels[of s] obtain lv where
    lv: "cut_cell [0, 0.3, 0.7, 1] [''Low'', ''Medium'', ''High''] (Num s) = Some lv"
    and low: "lv = Str ''Low'' \<longleftrightarrow> num_less (Fin 0) s \<and> num_le s (Fin 0.3)"
    and med: "lv = Str ''Medium'' \<longleftrightarrow> num_less (Fin 0.3) s \<and> num_le s (Fin 0.7)"
    and high: "lv = Str ''High'' \<longleftrightarrow> num_less (Fin 0.7) s \<and> num_le s (Fin 1)"
    and miss: "lv = Num NaN \<longleftrightarrow> \<not> (num_less (Fin 0) s \<and> num_le s (Fin 1))"
    by blast
  have "s = NaN \<or> (\<exists>r. s = Fin r \<and> 0 \<le> r \<and> r \<le> 1)"
    using clip_01_cases[of v] unfolding s_def by blast
  then have "\<not> (num_less (Fin 0) s \<and> num_le s (Fin 1)) \<longleftrightarrow> s = Fin 0 \<or> s = NaN"
    by auto
  with miss have miss': "lv = Num NaN \<longleftrightarrow> s = Fin 0 \<or> s = NaN" by simp
  from rs rl have "cell_at df' ''risk_score'' i = Some (Num s)" "cell_at df' ''risk_level'' i = Some lv"
    unfolding s_def v_def using lv[unfolded s_def v_def] by simp_all
  with low med high miss' show ?thesis by blast
qed

theorem risk_level_bins_witness:
  "wf_frame ex_edge \<and> score ex_edge = Inr ex_edge_scored \<and> 0 < nrows ex_edge \<and>
   (\<exists>lv. cell_at ex_edge_scored ''risk_score'' 0 = Some (Num (Fin 0)) \<and>
      cell_at ex_edge_scored ''risk_level'' 0 = Some lv \<and> lv = Num NaN \<and>
      lv \<noteq> Str ''Low'' \<and> lv \<noteq> Str ''Medium'' \<and> lv \<noteq> Str ''High'')"
proof -
  have l0: "0 < nrows ex_edge" by (simp add: ex_edge_def nrows_def)
  from risk_level_bins[OF wf_ex_edge score_ex_edge l0] obtain s lv where
    s: "cell_at ex_edge_scored ''risk_score'' 0 = Some (Num s)"
    and lv: "cell_at ex_edge_scored ''risk_level'' 0 = Some lv"
    and miss: "lv = Num NaN \<longleftrightarrow> s = Fin 0 \<or> s = NaN"
    by blast
  from s have s0: "s = Fin 0" by (simp add: ex_edge_scored_def cell_at_def)
  with miss have "lv = Num NaN" by simp
  with s lv s0 wf_ex_edge score_ex_edge l0 show ?thesis by simp
qed





text \<open>
  C10. The recommendation for a row is Review manually exactly when its risk level is
  High; every other level, a missing one too, gives Likely Approve. So a scored row
  without a level, such as a row whose risk score is exactly 0, is recommended
  Likely Approve.
\<close>

theorem recommend_missing_level:
  assumes "wf_frame df" and "distinct (index df)" and "score df = Inr df'" and "i < nrows df"
  shows "\<exists>lv. cell_at df' ''risk_level'' i = Some lv \<and>
           recommendation df' (Some (index df ! i)) =
             Inr (if lv = Str ''High'' then ''Review manually'' else ''Likely Approve'') \<and>
           (lv = Num NaN \<longrightarrow> recommendation df' (Some (index df ! i)) = Inr ''Likely Approve'') \<and>
           (cell_at df' ''risk_score'' i = Some (Num (Fin 0)) \<longrightarrow>
              recommendation df' (Some (index df ! i)) = Inr ''Likely Approve'')"
proof -
  from score_row[OF assms(1,3,4)] obtain a inc loan where
    rs: "cell_at df' ''risk_score'' i =
           Some (Num (clip (fadd (fmul (fdiv inc loan) (Fin 0.3)) (fmul a (Fin 0.01))) (Fin 0) (Fin 1)))"
    and rl: "cell_at df' ''risk_level'' i =
           cut_cell [0, 0.3, 0.7, 1] [''Low'', ''Medium'', ''High'']
             (Num (clip (fadd (fmul (fdiv inc loan) (Fin 0.3)) (fmul a (Fin 0.01))) (Fin 0) (Fin 1)))"
    by blast
  define s where "s = clip (fadd (fmul (fdiv inc loan) (Fin 0.3)) (fmul a (Fin 0.01))) (Fin 0) (Fin 1)"
  from cut_levels[of s] obtain lv where
    lv: "cut_cell [0, 0.3, 0.7, 1] [''Low'', ''Medium'', ''High''] (Num s) = Some lv"
    and zero: "s = Fin 0 \<longrightarrow> lv = Num NaN"
    by blast
  from rl lv have cl: "cell_at df' ''risk_level'' i = Some lv" by (simp add: s_def)
  from rs have cs: "cell_at df' ''risk_score'' i = Some (Num s)" by (simp add: s_def)
  have idx: "index df' = index df" and n: "nrows df' = nrows df"
    using wf_score[OF assms(1,3)] by simp_all
  have "loc df' (index df ! i) = Inr (row_at df' i)"
    using loc_at[of df' i] assms(2,4) idx n by simp
  moreover have "field (row_at df' i) ''risk_level'' = Inr lv" by (rule field_row_at[OF cl])
  ultimately have r: "recommendation df' (Some (index df ! i)) =
             Inr (if lv = Str ''High'' then ''Review manually'' else ''Likely Approve'')"
    by (simp add: recommendation_def recommend_def bind_err_def)
  then have nan: "lv = Num NaN \<longrightarrow> recommendation df' (Some (index df ! i)) = Inr ''Likely Approve''"
    by simp
  have "cell_at df' ''risk_score'' i = Some (Num (Fin 0)) \<longrightarrow>
              recommendation df' (Some (index df ! i)) = Inr ''Likely Approve''"
    using cs zero nan by simp
  with cl r nan show ?thesis by blast
qed

theorem recommend_missing_level_witness:
  "wf_frame ex_edge \<and> distinct (index ex_edge) \<and> score ex_edge = Inr ex_edge_scored \<and>
   0 < nrows ex_edge \<and> cell_at ex_edge_scored ''risk_score'' 0 = Some (Num (Fin 0)) \<and>
   cell_at ex_edge_scored ''risk_level'' 0 = Some (Num NaN) \<and>
   recommendation ex_edge_scored (Some 0) = Inr ''Likely Approve''"
proof -
  have l0: "0 < nrows ex_edge" by (simp add: ex_edge_def nrows_def)
  have d: "distinct (index ex_edge)" by (simp add: ex_edge_def)
  have i0: "index ex_edge ! 0 = 0" by (simp add: ex_edge_def)
  have s0: "cell_at ex_edge_scored ''risk_score'' 0 = Some (Num (Fin 0))"
    and lv0: "cell_at ex_edge_scored ''risk_level'' 0 = Some (Num NaN)"
    by (simp_all add: ex_edge_scored_def cell_at_def)
  from recommend_missing_level[OF wf_ex_edge d score_ex_edge l0] obtain lv where
    "cell_at ex_edge_scored ''risk_score'' 0 = Some (Num (Fin 0)) \<longrightarrow>
       recommendation ex_edge_scored (Some (index ex_edge ! 0)) = Inr ''Likely Approve''"
    by blast
  with s0 i0 have "recommendation ex_edge_scored (Some 0) = Inr ''Likely Approve''" by simp
  with wf_ex_edge d score_ex_edge l0 s0 lv0 show ?thesis by (intro conjI)
qed

text \<open>
  C7, as the claim states it, fails on two validated files. The score step assigns the
  three derived columns by name: a file that already has a column \<^verbatim>\<open>risk_score\<close> gets
  that column overwritten, from 0.5 to 1 here, and gains two columns and not three. And
  validation looks at the column names only: on a file whose income column holds text the
  division raises \<^verbatim>\<open>TypeError\<close> and there is no output at all.
\<close>

theorem score_frame_effect_counterexample:
  "wf_frame ex_rescored \<and> all_required ex_rescored \<and>
   score ex_rescored = Inr ex_rescored_out \<and>
   cell_at ex_rescored ''risk_score'' 0 = Some (Num (Fin 0.5)) \<and>
   cell_at ex_rescored_out ''risk_score'' 0 = Some (Num (Fin 1)) \<and>
   cell_at ex_rescored_out ''risk_score'' 0 \<noteq> cell_at ex_rescored ''risk_score'' 0 \<and>
   length (columns ex_rescored_out) = length (columns ex_rescored) + 2 \<and>
   wf_frame ex_text \<and> all_required ex_text \<and> score ex_text = Inl TypeError"
  using score_ex_rescored score_ex_text
  by (simp add: ex_rescored_def ex_rescored_out_def ex_text_def frame_defs all_required_def
      required_cols_def)

text \<open>
  C7, amended. For every validated file whose age, income and loan_amount columns are
  numeric, the score step gives a frame with the same row labels in the same order and
  so the same number of rows; every column other than \<^verbatim>\<open>income_to_loan_ratio\<close>,
  \<^verbatim>\<open>risk_score\<close> and \<^verbatim>\<open>risk_level\<close> is unchanged; these three are columns of the
  result with one cell per row; and the columns of the result are those of the file, in
  their order, followed by those of the three names that the file did not have.
\<close>

theorem score_frame_effect:
  assumes "wf_frame df" and "numeric_col df ''age''" and "numeric_col df ''income''"
    and "numeric_col df ''loan_amount''"
  shows "\<exists>df'. score df = Inr df' \<and> wf_frame df' \<and>
           index df' = index df \<and> nrows df' = nrows df \<and>
           (\<forall>c. c \<noteq> ''income_to_loan_ratio'' \<and> c \<noteq> ''risk_score'' \<and> c \<noteq> ''risk_level'' \<longrightarrow>
                map_of (cols df') c = map_of (cols df) c) \<and>
           (\<forall>c. c = ''income_to_loan_ratio'' \<or> c = ''risk_score'' \<or> c = ''risk_level'' \<longrightarrow>
                (\<exists>vs. map_of (cols df') c = Some vs \<and> length vs = nrows df)) \<and>
           columns df' =
             columns df @ filter (\<lambda>c. c \<notin> set (columns df))
                            [''income_to_loan_ratio'', ''risk_score'', ''risk_level'']"
proof -
  from score_total[OF assms(2-4)] obtain df' where sc: "score df = Inr df'" ..
  note wf = assms(1)
  from wf_score[OF wf sc] other_columns_score[OF wf sc] derived_columns_score[OF wf sc]
    columns_score[OF wf sc] sc
  show ?thesis by blast
qed

theorem score_frame_effect_witness:
  "wf_frame ex_edge \<and> numeric_col ex_edge ''age'' \<and> numeric_col ex_edge ''income'' \<and>
   numeric_col ex_edge ''loan_amount'' \<and>
   (\<exists>df'. score ex_edge = Inr df' \<and> index df' = [0, 1, 2] \<and>
      map_of (cols df') ''age'' = Some [Num (Fin 0), Num (Fin 40), Num (Fin 30)] \<and>
      columns df' = [''age'', ''income'', ''loan_amount'',
                     ''income_to_loan_ratio'', ''risk_score'', ''risk_level''])"
proof -
  from score_frame_effect[OF wf_ex_edge numeric_ex_edge] obtain df' where
    sc: "score ex_edge = Inr df'" and idx: "index df' = index ex_edge" and
    oth: "\<forall>c. c \<noteq> ''income_to_loan_ratio'' \<and> c \<noteq> ''risk_score'' \<and> c \<noteq> ''risk_level'' \<longrightarrow>
                map_of (cols df') c = map_of (cols ex_edge) c" and
    cs: "columns df' =
             columns ex_edge @ filter (\<lambda>c. c \<notin> set (columns ex_edge))
                            [''income_to_loan_ratio'', ''risk_score'', ''risk_level'']"
    by blast
  from idx have i: "index df' = [0, 1, 2]" by (simp add: ex_edge_def)
  from oth have "map_of (cols df') ''age'' = map_of (cols ex_edge) ''age''" by simp
  then have a: "map_of (cols df') ''age'' = Some [Num (Fin 0), Num (Fin 40), Num (Fin 30)]"
    by (simp add: ex_edge_def)
  from cs have c: "columns df' = [''age'', ''income'', ''loan_amount'',
                     ''income_to_loan_ratio'', ''risk_score'', ''risk_level'']"
    by (simp add: ex_edge_def columns_def)
  from sc i a c have "\<exists>df'. score ex_edge = Inr df' \<and> index df' = [0, 1, 2] \<and>
      map_of (cols df') ''age'' = Some [Num (Fin 0), Num (Fin 40), Num (Fin 30)] \<and>
      columns df' = [''age'', ''income'', ''loan_amount'',
                     ''income_to_loan_ratio'', ''risk_score'', ''risk_level'']"
    by blast
  with wf_ex_edge numeric_ex_edge show ?thesis by (intro conjI)
qed

text \<open>
  C8, as the claim states it, fails at the selection All: lines 61 to 64 build and show a
  filtered frame only for a level other than All, so for All there is no result, and not
  the full dataset.
\<close>

theorem filter_by_level_counterexample:
  "filtered_df ex_edge_scored ''All'' = Inr None \<and>
   filtered_df ex_edge_scored ''All'' \<noteq> Inr (Some ex_edge_scored)"
  by (simp add: filtered_df_def)

text \<open>
  C8, amended. For every scored dataset and every level other than All, the filter
  gives exactly the rows whose risk level equals that level, with their labels and in
  their order, under the same columns; a level that no row has gives an empty result and
  no error. For All no filtered result is built at all.
\<close>

theorem filter_by_level:
  assumes "wf_frame df" and "map_of (cols df) ''risk_level'' = Some lv"
  shows "filtered_df df ''All'' = Inr None \<and>
         (level \<noteq> ''All'' \<longrightarrow>
            (\<exists>f. filtered_df df level = Inr (Some f) \<and>
                 rows f = filter (\<lambda>(l, r). map_of r ''risk_level'' = Some (Str level)) (rows df) \<and>
                 columns f = columns df \<and>
                 (Str level \<notin> set lv \<longrightarrow> rows f = [] \<and> nrows f = 0)))"
proof -
  let ?f = "bool_index df (series_eq lv level)"
  have r: "rows ?f = filter (\<lambda>(l, r). map_of r ''risk_level'' = Some (Str level)) (rows df)"
    by (rule rows_bool_index_level[OF assms])
  have c: "columns ?f = columns df" by (simp add: bool_index_def columns_take_rows)
  have e: "rows ?f = [] \<and> nrows ?f = 0" if "Str level \<notin> set lv"
  proof -
    have "lv ! i \<noteq> Str level" if "i < length lv" for i
      using nth_mem[OF that] \<open>Str level \<notin> set lv\<close> by metis
    then have "filter (\<lambda>i. lv ! i = Str level) [0..<length lv] = []"
      by (simp add: filter_empty_conv)
    then have "nonzero (series_eq lv level) = []" by (simp add: nonzero_series_eq)
    then show ?thesis by (simp add: bool_index_def rows_take_rows nrows_take_rows)
  qed
  have "filtered_df df level = Inr (Some ?f)" if "level \<noteq> ''All''"
    using that assms(2) by (simp add: filtered_df_def bind_err_def get_col_def)
  with r c e show ?thesis by (auto simp: filtered_df_def)
qed

theorem filter_by_level_witness:
  "wf_frame ex_edge_scored \<and>
   map_of (cols ex_edge_scored) ''risk_level'' = Some [Num NaN, Str ''High'', Num NaN] \<and>
   ''High'' \<noteq> ''All'' \<and> ''Low'' \<noteq> ''All'' \<and>
   (\<exists>f. filtered_df ex_edge_scored ''High'' = Inr (Some f) \<and> index f = [1] \<and>
        map fst (rows f) = [1]) \<and>
   (\<exists>f. filtered_df ex_edge_scored ''Low'' = Inr (Some f) \<and> rows f = [])"
proof -
  have lv: "map_of (cols ex_edge_scored) ''risk_level'' = Some [Num NaN, Str ''High'', Num NaN]"
    by (simp add: ex_edge_scored_def)
  from filter_by_level[OF wf_ex_edge_scored lv, of "''High''"] obtain f where
    f: "filtered_df ex_edge_scored ''High'' = Inr (Some f)"
    by auto
  then have "f = bool_index ex_edge_scored (series_eq [Num NaN, Str ''High'', Num NaN] ''High'')"
    by (simp add: filtered_df_def bind_err_def get_col_def lv)
  then have "index f = [1] \<and> map fst (rows f) = [1]"
    by (simp add: bool_index_def series_eq_def nonzero_def take_rows_def rows_def nrows_def
        ex_edge_scored_def upt_rec)
  with f have h: "\<exists>f. filtered_df ex_edge_scored ''High'' = Inr (Some f) \<and> index f = [1] \<and>
        map fst (rows f) = [1]" by (intro exI[of _ f]) simp
  from filter_by_level[OF wf_ex_edge_scored lv, of "''Low''"] obtain g where
    "filtered_df ex_edge_scored ''Low'' = Inr (Some g)" "rows g = []"
    by auto
  then have l: "\<exists>f. filtered_df ex_edge_scored ''Low'' = Inr (Some f) \<and> rows f = []" by blast
  from wf_ex_edge_scored lv h l show ?thesis by simp
qed

text \<open>
  C6. The summary by region counts, as \<^verbatim>\<open>total_borrowers\<close>, the cells of
  \<^verbatim>\<open>risk_score\<close> of the group that are not missing (the aggregation
  \<^verbatim>\<open>"count"\<close>), and not the records of the group. On the file of two Accra borrowers
  of which one has income 0 and loan amount 0, the score of that borrower is undefined,
  and the summary reports one borrower for Accra where the region has two records; the
  sum of \<^verbatim>\<open>total_borrowers\<close> is then 1 and the dataset has 2 rows, all with a region.
\<close>

theorem region_count_skips_undefined_scores:
  "score ex_region_gap = Inr ex_region_gap_scored \<and>
   region_summary ex_region_gap_scored =
     Inr (Some \<lparr>index = [0],
                cols = [(''region'', [Str ''Accra'']),
                        (''total_borrowers'', [Num (Fin 1)]),
                        (''avg_risk_score'', [Num (Fin 1)]),
                        (''high_risk_pct'', [Num (Fin (1 / 2))])]\<rparr>) \<and>
   length (filter (\<lambda>(l, r). map_of r ''region'' = Some (Str ''Accra''))
             (rows ex_region_gap_scored)) = 2 \<and>
   nrows ex_region_gap_scored = 2"
  using score_ex_region_gap
  by (simp add: ex_region_gap_scored_def region_defs nrows_def rows_def row_at_def)








end
